theory Spec2Isabelle
  imports Complex_Main
begin

section \<open>Conventions\<close>

text \<open>
  The repository is Python 2 with numpy. Times (timeouts, measured runtimes, counters) are
  modelled as exact reals, as the specification's data model describes them (measurements
  are floating-point seconds, so every \<open>/\<close> on them is true division); configuration
  and instance identifiers are Python integers, modelled as \<open>int\<close>. Every \<open>raise\<close> of the
  source is a value of the type \<open>error\<close>, and a function that can raise returns a sum
  with \<open>Inl\<close> for the exception.
\<close>

datatype error =
    InvalidTimeout        \<comment> \<open>ValueError('timeout provided is too high to be simulated.')\<close>
  | IndexError            \<comment> \<open>list index out of range, pop from an empty list or heap\<close>
  | ZeroDivisionError     \<comment> \<open>division or modulo by zero on Python numbers\<close>
  | RandintValueError     \<comment> \<open>np.random.randint with an empty range\<close>
  | EmptyMinValueError    \<comment> \<open>np.min or np.argmin of an empty sequence\<close>
  | MathDomainError       \<comment> \<open>math.log of a non-positive number\<close>
  | UnboundLocalError     \<comment> \<open>a local variable read before assignment\<close>
  | NonFiniteFloat        \<comment> \<open>numpy produced nan or inf, outside the real-number model\<close>

text \<open>Python list indexing: a negative index counts from the end, out of range raises.\<close>

definition py_index :: "'a list \<Rightarrow> int \<Rightarrow> error + 'a" where
  "py_index xs i =
     (if 0 \<le> i \<and> i < int (length xs) then Inr (xs ! nat i)
      else if i < 0 \<and> - int (length xs) \<le> i then Inr (xs ! nat (int (length xs) + i))
      else Inl IndexError)"

text \<open>A \<open>collections.defaultdict(float)\<close>: a finite map read with default 0.\<close>

definition dd_get :: "('k \<rightharpoonup> real) \<Rightarrow> 'k \<Rightarrow> real" where
  "dd_get d k = (case d k of None \<Rightarrow> 0 | Some v \<Rightarrow> v)"

text \<open>The nested \<open>defaultdict(lambda: defaultdict(float))\<close>: a missing outer key reads as
  an empty inner dictionary.\<close>

definition dd_inner :: "('k \<rightharpoonup> ('j \<rightharpoonup> real)) \<Rightarrow> 'k \<Rightarrow> ('j \<rightharpoonup> real)" where
  "dd_inner d k = (case d k of None \<Rightarrow> Map.empty | Some m \<Rightarrow> m)"

section \<open>The simulated environment (simulated_environment.py)\<close>

record Environment =
  env_timeout :: real
  env_results :: "real list list"
  env_instance_count :: nat
  env_total_runtime :: real
  env_total_resumed_runtime :: real
  env_runtime_per_config :: "int \<rightharpoonup> real"
  env_ran_so_far :: "int \<rightharpoonup> (int \<rightharpoonup> real)"

definition reset :: "Environment \<Rightarrow> Environment" where
  "reset env = env\<lparr> env_total_runtime := 0,
                    env_total_resumed_runtime := 0,
                    env_runtime_per_config := Map.empty,
                    env_ran_so_far := Map.empty \<rparr>"

text \<open>\<open>__init__\<close> after the measurements have been unpickled and sorted by key:
  \<open>len(self._results[0])\<close> raises on an empty table.\<close>

definition init_env :: "real list list \<Rightarrow> real \<Rightarrow> error + Environment" where
  "init_env results timeout =
     (case results of
        [] \<Rightarrow> Inl IndexError
      | row # _ \<Rightarrow>
          Inr (reset \<lparr> env_timeout = timeout, env_results = results,
                      env_instance_count = length row,
                      env_total_runtime = 0, env_total_resumed_runtime = 0,
                      env_runtime_per_config = Map.empty, env_ran_so_far = Map.empty \<rparr>))"

definition get_num_configs :: "Environment \<Rightarrow> nat" where
  "get_num_configs env = length (env_results env)"

definition get_num_instances :: "Environment \<Rightarrow> nat" where
  "get_num_instances env = env_instance_count env"

definition get_total_runtime :: "Environment \<Rightarrow> real" where
  "get_total_runtime env = env_total_runtime env"

definition get_total_resumed_runtime :: "Environment \<Rightarrow> real" where
  "get_total_resumed_runtime env = env_total_resumed_runtime env"

text \<open>\<open>np.random.randint(count)\<close>: the argument \<open>draw\<close> is the number the generator
  returns, which the library promises to lie in \<open>[0, count)\<close>; an empty range raises.\<close>

definition randint :: "nat \<Rightarrow> int \<Rightarrow> error + int" where
  "randint count draw = (if count = 0 then Inl RandintValueError else Inr draw)"

text \<open>The expression \<open>self._results[config_id][instance_id % self._instance_count]\<close>,
  evaluated left to right.\<close>

definition ground_truth :: "Environment \<Rightarrow> int \<Rightarrow> int \<Rightarrow> error + real" where
  "ground_truth env config_id instance_id =
     (case py_index (env_results env) config_id of
        Inl e \<Rightarrow> Inl e
      | Inr row \<Rightarrow>
          if env_instance_count env = 0 then Inl ZeroDivisionError
          else py_index row (instance_id mod int (env_instance_count env)))"

definition ran_so_far_get :: "Environment \<Rightarrow> int \<Rightarrow> int \<Rightarrow> real" where
  "ran_so_far_get env config_id instance_id =
     dd_get (dd_inner (env_ran_so_far env) config_id) instance_id"

text \<open>\<open>run\<close> returns the exception or the pair \<open>(timed_out, runtime)\<close>, together with the
  environment as the call leaves it.\<close>

definition run ::
  "Environment \<Rightarrow> int \<Rightarrow> real \<Rightarrow> int option \<Rightarrow> int \<Rightarrow> (error + bool \<times> real) \<times> Environment" where
  "run env config_id timeout instance_id draw =
     (if timeout > env_timeout env then (Inl InvalidTimeout, env)
      else
        case (case instance_id of
                None \<Rightarrow> randint (env_instance_count env) draw
              | Some i \<Rightarrow> Inr i) of
          Inl e \<Rightarrow> (Inl e, env)
        | Inr iid \<Rightarrow>
            (case ground_truth env config_id iid of
               Inl e \<Rightarrow> (Inl e, env)
             | Inr truth \<Rightarrow>
                 let runtime = min timeout truth;
                     resumed_runtime = runtime - ran_so_far_get env config_id iid
                 in (Inr (timeout \<le> truth, runtime),
                     env\<lparr> env_total_runtime := env_total_runtime env + runtime,
                          env_runtime_per_config :=
                            (env_runtime_per_config env)
                              (config_id \<mapsto> dd_get (env_runtime_per_config env) config_id
                                              + resumed_runtime),
                          env_ran_so_far :=
                            (env_ran_so_far env)
                              (config_id \<mapsto> (dd_inner (env_ran_so_far env) config_id)
                                                (iid \<mapsto> runtime)),
                          env_total_resumed_runtime :=
                            env_total_resumed_runtime env + resumed_runtime \<rparr>)))"

text \<open>A caller's request: configuration, timeout and explicit instance identifier.\<close>

record call =
  call_config :: int
  call_timeout :: real
  call_instance :: int

definition run_call :: "Environment \<Rightarrow> call \<Rightarrow> (error + bool \<times> real) \<times> Environment" where
  "run_call env c = run env (call_config c) (call_timeout c) (Some (call_instance c)) 0"

text \<open>A sequence of calls on one environment; a call that raises leaves the environment
  as it was, and the next call sees that environment.\<close>

fun run_seq :: "Environment \<Rightarrow> call list \<Rightarrow> Environment" where
  "run_seq env [] = env"
| "run_seq env (c # cs) = run_seq (snd (run_call env c)) cs"

section \<open>Vocabulary for the ledger's accounting properties\<close>

text \<open>The measured runtimes of a dataset are non-negative.\<close>

definition nonneg_results :: "Environment \<Rightarrow> bool" where
  "nonneg_results env = (\<forall>row\<in>set (env_results env). \<forall>g\<in>set row. 0 \<le> g)"

text \<open>Two calls address the same resumption entry: the same configuration and the same
  raw instance identifier.\<close>

definition same_pair :: "call \<Rightarrow> call \<Rightarrow> bool" where
  "same_pair x y = (call_config x = call_config y \<and> call_instance x = call_instance y)"

text \<open>The runtime a call returns (0 for a call that raises); it does not depend on the
  counters or on the resumption map.\<close>

definition elapsed_of :: "Environment \<Rightarrow> call \<Rightarrow> real" where
  "elapsed_of env c = (case fst (run_call env c) of Inl _ \<Rightarrow> 0 | Inr (_, elapsed) \<Rightarrow> elapsed)"

text \<open>The specification's condition, in its words: some pair is queried a second time with
  a larger timeout than before.\<close>

fun retried_larger :: "call list \<Rightarrow> bool" where
  "retried_larger [] = False"
| "retried_larger (x # xs) =
     ((\<exists>y\<in>set xs. same_pair x y \<and> call_timeout x < call_timeout y) \<or> retried_larger xs)"

text \<open>What the counters really detect: some call returned a non-zero runtime and its pair
  is queried again later, with whatever timeout.\<close>

fun charged_then_requeried :: "Environment \<Rightarrow> call list \<Rightarrow> bool" where
  "charged_then_requeried env [] = False"
| "charged_then_requeried env (x # xs) =
     ((elapsed_of env x \<noteq> 0 \<and> (\<exists>y\<in>set xs. same_pair x y)) \<or> charged_then_requeried env xs)"

definition ledger_gap :: "Environment \<Rightarrow> real" where
  "ledger_gap env = env_total_runtime env - env_total_resumed_runtime env"

definition call_ok :: "Environment \<Rightarrow> call \<Rightarrow> bool" where
  "call_ok env x = (\<not> isl (ground_truth env (call_config x) (call_instance x)))"

definition entry_of :: "Environment \<Rightarrow> call \<Rightarrow> real" where
  "entry_of env x = ran_so_far_get env (call_config x) (call_instance x)"

text \<open>The dataset of the specification's scenario: three configurations, five instances,
  measurement ceiling 20.\<close>

definition scenario_env :: Environment where
  "scenario_env =
     \<lparr> env_timeout = 20,
       env_results = [[1, 1, 1, 1, 1], [10, 10, 10, 10, 10], [5, 5, 5, 5, 5]],
       env_instance_count = 5,
       env_total_runtime = 0, env_total_resumed_runtime = 0,
       env_runtime_per_config = Map.empty, env_ran_so_far = Map.empty \<rparr>"

definition mk_call :: "int \<Rightarrow> real \<Rightarrow> int \<Rightarrow> call" where
  "mk_call c t i = \<lparr> call_config = c, call_timeout = t, call_instance = i \<rparr>"

section \<open>Leaps and Bounds (leapsandbounds.py)\<close>

text \<open>
  The numeric library calls are modelled by the real functions they approximate:
  \<open>np.log\<close> and \<open>math.log\<close> by \<open>ln\<close>, \<open>np.sqrt\<close> by \<open>sqrt\<close>, \<open>**\<close> and \<open>np.power\<close> by
  \<open>powr\<close> and \<open>^\<close>, \<open>np.floor\<close> and \<open>math.ceil\<close> by floor and ceiling. Where Python raises
  (a zero divisor, \<open>math.log\<close> outside its domain) the model returns that error. Where numpy
  would instead produce nan or an infinity and carry on (a logarithm or a square root outside
  its domain, the mean of no samples), the computation has left the real numbers and the
  model stops with \<open>NonFiniteFloat\<close>; no such case arises for parameters in the documented
  ranges.
\<close>

definition R :: real where
  "R = 44"

definition R2 :: real where
  "R2 = 32"

text \<open>One pass of a loop body either returns from the function or hands the updated local
  variables to the next pass.\<close>

datatype ('r, 's) loop_step = Break 'r | Continue 's

subsection \<open>The sequential estimator \<open>ebgstop_slave_alg\<close>\<close>

text \<open>The local variables that live across iterations; \<open>es_x\<close> is \<open>None\<close> until \<open>x\<close> has
  been assigned.\<close>

record est_state =
  es_t :: real
  es_q :: "real list"
  es_sumq :: real
  es_sum_q_squared :: real
  es_kk :: nat
  es_x :: "real option"
  es_env :: Environment

text \<open>The local constant \<open>beta\<close> of the estimator.\<close>

definition ebgstop_beta :: real where
  "ebgstop_beta = 1.10"

text \<open>\<open>tau = 4 * theta / (3 * delta)\<close>.\<close>

definition tau_of :: "real \<Rightarrow> real \<Rightarrow> error + real" where
  "tau_of theta delta =
     (if 3 * delta = 0 then Inl ZeroDivisionError else Inr (4 * theta / (3 * delta)))"

text \<open>The run of the iteration, issued only while budget is left.\<close>

definition ebgstop_run ::
  "int \<Rightarrow> real \<Rightarrow> nat \<Rightarrow> est_state \<Rightarrow> error + real \<times> Environment" where
  "ebgstop_run i tau j st =
     (if es_t st > 0 then
        (case run (es_env st) i (min (es_t st) tau) (Some (int j)) 0 of
           (Inl e, _) \<Rightarrow> Inl e
         | (Inr (_, elapsed), env') \<Rightarrow> Inr (elapsed, env'))
      else Inr (0, es_env st))"

text \<open>The geometric schedule on which \<open>kk\<close> and \<open>x\<close> are refreshed.\<close>

definition ebgstop_schedule ::
  "nat \<Rightarrow> real \<Rightarrow> nat \<Rightarrow> nat \<Rightarrow> nat \<Rightarrow> real option \<Rightarrow> error + nat \<times> real option" where
  "ebgstop_schedule k zeta n j kk x =
     (if real (j + 1) > real_of_int \<lfloor>ebgstop_beta ^ kk\<rfloor> then
        let kk' = kk + 1;
            alpha = real_of_int \<lfloor>ebgstop_beta ^ kk'\<rfloor> / real_of_int \<lfloor>ebgstop_beta ^ (kk' - 1)\<rfloor>
        in if zeta = 0 then Inl ZeroDivisionError
           else
             let dk = (2.1 * real k powr 1.5 * 2.61238 * (real kk' powr 1.1) * 10.5844 * real n)
                        / zeta
             in if 3 * dk \<le> 0 then Inl NonFiniteFloat
                else Inr (kk', Some (alpha * ln (3 * dk)))
      else Inr (kk, x))"

text \<open>The two stopping tests, made from the second sample on. \<open>None\<close> means
  that neither test fired.\<close>

definition ebgstop_tests ::
  "real \<Rightarrow> real \<Rightarrow> nat \<Rightarrow> real \<Rightarrow> real \<Rightarrow> nat \<Rightarrow> real \<Rightarrow> nat \<Rightarrow> real \<Rightarrow> real \<Rightarrow> real option
     \<Rightarrow> error + real option" where
  "ebgstop_tests delta theta k epsilon zeta n tau j q_mean q_var x =
     (if j > 0 then
        (case x of
           None \<Rightarrow> Inl UnboundLocalError
         | Some xv \<Rightarrow>
             if q_var * 2 * xv / real (j + 1) < 0 then Inl NonFiniteFloat
             else
               let confidence = sqrt (q_var * 2 * xv / real (j + 1)) + 3 * tau * xv / real (j + 1);
                   lower_bound = q_mean - confidence
               in if (1 + 3 * epsilon / 7) * lower_bound > theta \<and> q_mean > theta
                  then Inr (Some theta)
                  else if 40 * 3 * n * k * (k + 1) * j * (j + 1) = 0 then Inl ZeroDivisionError
                  else
                    let d_prime = zeta / real (40 * 3 * n * k * (k + 1) * j * (j + 1))
                    in if d_prime \<le> 0 \<or> delta = 0 then Inl NonFiniteFloat
                       else
                         let r2 = real_of_int \<lceil>- R2 * ln d_prime / delta\<rceil>
                         in if real (j + 1) \<ge> r2
                               \<and> confidence \<le> epsilon / 3 * (q_mean + lower_bound)
                            then Inr (Some q_mean)
                            else Inr None)
      else Inr None)"

text \<open>The body of the \<open>for j in xrange(b)\<close> loop.\<close>

definition ebgstop_body ::
  "int \<Rightarrow> real \<Rightarrow> real \<Rightarrow> nat \<Rightarrow> real \<Rightarrow> real \<Rightarrow> nat \<Rightarrow> real \<Rightarrow> nat \<Rightarrow> est_state
     \<Rightarrow> error + (real \<times> Environment, est_state) loop_step" where
  "ebgstop_body i delta theta k epsilon zeta n tau j st =
     (case ebgstop_run i tau j st of
        Inl e \<Rightarrow> Inl e
      | Inr (elapsed, env') \<Rightarrow>
          let t = es_t st - elapsed;
              q = es_q st @ [elapsed];
              sumq = es_sumq st + elapsed;
              sum_q_squared = es_sum_q_squared st + elapsed * elapsed
          in if t = 0 then Inr (Break (theta, env'))
             else
               let q_mean = sumq / real (j + 1);
                   q_var = max ((sum_q_squared - q_mean * sumq) / real (j + 1)) 0
               in (case ebgstop_schedule k zeta n j (es_kk st) (es_x st) of
                     Inl e \<Rightarrow> Inl e
                   | Inr (kk, x) \<Rightarrow>
                       (case ebgstop_tests delta theta k epsilon zeta n tau j q_mean q_var x of
                          Inl e \<Rightarrow> Inl e
                        | Inr (Some result) \<Rightarrow> Inr (Break (result, env'))
                        | Inr None \<Rightarrow>
                            Inr (Continue \<lparr> es_t = t, es_q = q, es_sumq = sumq,
                                            es_sum_q_squared = sum_q_squared,
                                            es_kk = kk, es_x = x, es_env = env' \<rparr>))))"

text \<open>\<open>np.mean(q)\<close>.\<close>

definition np_mean :: "real list \<Rightarrow> error + real" where
  "np_mean q = (if q = [] then Inl NonFiniteFloat else Inr (sum_list q / real (length q)))"

text \<open>The loop, with \<open>remaining\<close> iterations to go from index \<open>j\<close>; falling out of it returns
  the plain mean.\<close>

fun ebgstop_loop ::
  "int \<Rightarrow> real \<Rightarrow> real \<Rightarrow> nat \<Rightarrow> real \<Rightarrow> real \<Rightarrow> nat \<Rightarrow> real \<Rightarrow> nat \<Rightarrow> nat \<Rightarrow> est_state
     \<Rightarrow> error + real \<times> Environment" where
  "ebgstop_loop i delta theta k epsilon zeta n tau 0 j st =
     (case np_mean (es_q st) of Inl e \<Rightarrow> Inl e | Inr m \<Rightarrow> Inr (m, es_env st))"
| "ebgstop_loop i delta theta k epsilon zeta n tau (Suc remaining) j st =
     (case ebgstop_body i delta theta k epsilon zeta n tau j st of
        Inl e \<Rightarrow> Inl e
      | Inr (Break result) \<Rightarrow> Inr result
      | Inr (Continue st') \<Rightarrow> ebgstop_loop i delta theta k epsilon zeta n tau remaining (Suc j) st')"

text \<open>The local variables before the first iteration.\<close>

definition ebgstop_init :: "Environment \<Rightarrow> int \<Rightarrow> real \<Rightarrow> est_state" where
  "ebgstop_init env b theta =
     \<lparr> es_t = real_of_int b * theta, es_q = [], es_sumq = 0, es_sum_q_squared = 0,
       es_kk = 0, es_x = None, es_env = env \<rparr>"

definition ebgstop_slave_alg ::
  "Environment \<Rightarrow> int \<Rightarrow> int \<Rightarrow> real \<Rightarrow> real \<Rightarrow> nat \<Rightarrow> real \<Rightarrow> real \<Rightarrow> nat
     \<Rightarrow> error + real \<times> Environment" where
  "ebgstop_slave_alg env i b delta theta k epsilon zeta n =
     (case tau_of theta delta of
        Inl e \<Rightarrow> Inl e
      | Inr tau \<Rightarrow>
          ebgstop_loop i delta theta k epsilon zeta n tau (nat b) 0 (ebgstop_init env b theta))"


subsection \<open>The round loop \<open>leaps_and_bounds\<close>\<close>

text \<open>The sample bound of round \<open>k\<close>:
  \<open>int(math.ceil(R * math.log(40 * 3 * n * k * (k + 1) / zeta) / (delta * epsilon * epsilon)))\<close>.\<close>

definition lb_b :: "nat \<Rightarrow> nat \<Rightarrow> real \<Rightarrow> real \<Rightarrow> real \<Rightarrow> error + int" where
  "lb_b n k epsilon delta zeta =
     (if zeta = 0 then Inl ZeroDivisionError
      else if real (40 * 3 * n * k * (k + 1)) / zeta \<le> 0 then Inl MathDomainError
      else if delta * epsilon * epsilon = 0 then Inl ZeroDivisionError
      else Inr \<lceil>R * ln (real (40 * 3 * n * k * (k + 1)) / zeta) / (delta * epsilon * epsilon)\<rceil>)"

text \<open>The loop \<open>for i in xrange(n)\<close> that fills \<open>q_hat\<close>, with \<open>remaining\<close> configurations to
  go from index \<open>i\<close>.\<close>

fun estimate_all ::
  "int \<Rightarrow> real \<Rightarrow> real \<Rightarrow> nat \<Rightarrow> real \<Rightarrow> real \<Rightarrow> nat \<Rightarrow> nat \<Rightarrow> nat \<Rightarrow> real list \<Rightarrow> Environment
     \<Rightarrow> error + real list \<times> Environment" where
  "estimate_all b delta theta k epsilon zeta n 0 i q_hat env = Inr (q_hat, env)"
| "estimate_all b delta theta k epsilon zeta n (Suc remaining) i q_hat env =
     (case ebgstop_slave_alg env (int i) b delta theta k epsilon zeta n of
        Inl e \<Rightarrow> Inl e
      | Inr (q_hat_i, env') \<Rightarrow>
          estimate_all b delta theta k epsilon zeta n remaining (Suc i) (q_hat @ [q_hat_i]) env')"

text \<open>\<open>np.min\<close> and \<open>np.argmin\<close> (the first index of the minimum); both raise on an empty
  sequence.\<close>

definition np_min :: "real list \<Rightarrow> error + real" where
  "np_min xs = (if xs = [] then Inl EmptyMinValueError else Inr (Min (set xs)))"

definition np_argmin :: "real list \<Rightarrow> error + nat" where
  "np_argmin xs =
     (if xs = [] then Inl EmptyMinValueError
      else Inr (length (takeWhile (\<lambda>x. x \<noteq> Min (set xs)) xs)))"

text \<open>The variables of the \<open>while True\<close> loop.\<close>

record lb_state =
  lb_theta :: real
  lb_k :: nat
  lb_env :: Environment

text \<open>One round: the body of the \<open>while True\<close> loop.\<close>

definition lb_body ::
  "nat \<Rightarrow> real \<Rightarrow> real \<Rightarrow> real \<Rightarrow> real \<Rightarrow> lb_state
     \<Rightarrow> error + ((nat \<times> real \<times> real) \<times> Environment, lb_state) loop_step" where
  "lb_body n epsilon delta zeta theta_multiplier st =
     (let k = lb_k st + 1; theta = lb_theta st in
      case lb_b n k epsilon delta zeta of
        Inl e \<Rightarrow> Inl e
      | Inr b \<Rightarrow>
          (case estimate_all b delta theta k epsilon zeta n n 0 [] (lb_env st) of
             Inl e \<Rightarrow> Inl e
           | Inr (q_hat, env') \<Rightarrow>
               (case np_min q_hat of
                  Inl e \<Rightarrow> Inl e
                | Inr m \<Rightarrow>
                    if m < theta then
                      (case np_argmin q_hat of
                         Inl e \<Rightarrow> Inl e
                       | Inr best_config_index \<Rightarrow>
                           (case tau_of theta delta of
                              Inl e \<Rightarrow> Inl e
                            | Inr tau \<Rightarrow>
                                Inr (Break ((best_config_index, q_hat ! best_config_index, tau),
                                            env'))))
                    else Inr (Continue \<lparr> lb_theta = theta * theta_multiplier, lb_k = k,
                                         lb_env = env' \<rparr>))))"

text \<open>The \<open>while True\<close> loop may run forever; \<open>fuel\<close> bounds the number of rounds, and
  \<open>None\<close> means that the loop has not returned within them.\<close>

fun leaps_and_bounds_loop ::
  "nat \<Rightarrow> nat \<Rightarrow> real \<Rightarrow> real \<Rightarrow> real \<Rightarrow> real \<Rightarrow> lb_state
     \<Rightarrow> (error + (nat \<times> real \<times> real) \<times> Environment) option" where
  "leaps_and_bounds_loop 0 n epsilon delta zeta theta_multiplier st = None"
| "leaps_and_bounds_loop (Suc fuel) n epsilon delta zeta theta_multiplier st =
     (case lb_body n epsilon delta zeta theta_multiplier st of
        Inl e \<Rightarrow> Some (Inl e)
      | Inr (Break result) \<Rightarrow> Some (Inr result)
      | Inr (Continue st') \<Rightarrow> leaps_and_bounds_loop fuel n epsilon delta zeta theta_multiplier st')"

definition leaps_and_bounds ::
  "nat \<Rightarrow> Environment \<Rightarrow> nat \<Rightarrow> real \<Rightarrow> real \<Rightarrow> real \<Rightarrow> real \<Rightarrow> real
     \<Rightarrow> (error + (nat \<times> real \<times> real) \<times> Environment) option" where
  "leaps_and_bounds fuel env n epsilon delta zeta k0 theta_multiplier =
     leaps_and_bounds_loop fuel n epsilon delta zeta theta_multiplier
       \<lparr> lb_theta = k0 * 16 / 7, lb_k = 0, lb_env = env \<rparr>"

section \<open>Structured Procrastination (structured_procrastination.py)\<close>

text \<open>Sequencing of steps that may raise: the first exception ends the computation.\<close>

definition bind_err :: "error + 'a \<Rightarrow> ('a \<Rightarrow> error + 'b) \<Rightarrow> error + 'b" where
  "bind_err m f = (case m of Inl e \<Rightarrow> Inl e | Inr x \<Rightarrow> f x)"

text \<open>Indexing a list by a number that is never negative (a configuration index).\<close>

definition list_get :: "'a list \<Rightarrow> nat \<Rightarrow> error + 'a" where
  "list_get xs i = (if i < length xs then Inr (xs ! i) else Inl IndexError)"

text \<open>The position that a Python index which has just been read successfully denotes.\<close>

definition py_pos :: "'a list \<Rightarrow> int \<Rightarrow> nat" where
  "py_pos xs i = (if i < 0 then nat (int (length xs) + i) else nat i)"

definition C :: real where
  "C = 12"

text \<open>\<open>beta = np.log2(k_bar / k0)\<close>.\<close>

definition sp_beta :: "real \<Rightarrow> real \<Rightarrow> error + real" where
  "sp_beta k_bar k0 =
     (if k0 = 0 then Inl ZeroDivisionError
      else if k_bar / k0 \<le> 0 then Inl NonFiniteFloat
      else Inr (log 2 (k_bar / k0)))"

text \<open>\<open>int(np.ceil(C / (epsilon * epsilon) * np.log(num / zeta)))\<close>, the shape of both the
  initial run-list length (\<open>num = 3 * beta * n\<close>) and the target sample count
  (\<open>num = 3 * beta * n * k[i] * k[i]\<close>).\<close>

definition sp_count :: "real \<Rightarrow> real \<Rightarrow> real \<Rightarrow> error + int" where
  "sp_count epsilon zeta num =
     (if epsilon * epsilon = 0 then Inl ZeroDivisionError
      else if zeta = 0 \<or> num / zeta \<le> 0 then Inl NonFiniteFloat
      else Inr \<lceil>C / (epsilon * epsilon) * ln (num / zeta)\<rceil>)"

text \<open>The local variables of \<open>structured_procrastination\<close>; \<open>sp_i_star\<close> is \<open>None\<close> until
  \<open>i_star\<close> has been assigned.\<close>

record sp_state =
  sp_k :: "nat list"
  sp_l :: "int list"
  sp_q :: "(int \<times> real) list list"
  sp_qq :: "int list"
  sp_r :: "real list list"
  sp_r_sum :: "real list"
  sp_heap :: "(real \<times> nat) list"
  sp_current_delta :: real
  sp_iter_count :: nat
  sp_i_star :: "nat option"
  sp_env :: Environment

text \<open>\<open>heapq\<close> on tuples \<open>(priority, configuration)\<close>: the heap is kept as the bag of its
  entries; \<open>heappop\<close> removes and returns the least entry in the lexicographic order of
  tuples, and raises on an empty heap.\<close>

definition tuple_less :: "real \<times> nat \<Rightarrow> real \<times> nat \<Rightarrow> bool" where
  "tuple_less a b = (fst a < fst b \<or> (fst a = fst b \<and> snd a < snd b))"

definition heap_least :: "real \<times> nat \<Rightarrow> real \<times> nat \<Rightarrow> real \<times> nat" where
  "heap_least x m = (if tuple_less x m then x else m)"

definition heappush :: "(real \<times> nat) list \<Rightarrow> real \<times> nat \<Rightarrow> (real \<times> nat) list" where
  "heappush heap x = heap @ [x]"

definition heappop :: "(real \<times> nat) list \<Rightarrow> error + (real \<times> nat) \<times> (real \<times> nat) list" where
  "heappop heap =
     (case heap of
        [] \<Rightarrow> Inl IndexError
      | x # xs \<Rightarrow> let m = fold heap_least xs x in Inr (m, remove1 m heap))"

text \<open>The set-up loops. Every configuration gets the same initial
  run-list length \<open>l0\<close>, zero charges for the slots \<open>0 .. l0 - 1\<close>, those slots queued with
  timeout \<open>k0\<close>, and the heap entry \<open>(0, i)\<close>. With no configuration the length is never
  computed.\<close>

definition sp_init ::
  "Environment \<Rightarrow> nat \<Rightarrow> real \<Rightarrow> real \<Rightarrow> real \<Rightarrow> real \<Rightarrow> error + sp_state" where
  "sp_init env n epsilon zeta k0 beta =
     bind_err (if n = 0 then Inr 0 else sp_count epsilon zeta (3 * beta * real n))
       (\<lambda>l0. Inr \<lparr> sp_k = replicate n 0,
                    sp_l = replicate n l0,
                    sp_q = replicate n (map (\<lambda>ll. (int ll, k0)) [0..<nat l0]),
                    sp_qq = replicate n 0,
                    sp_r = replicate n (replicate (nat l0) 0),
                    sp_r_sum = replicate n 0,
                    sp_heap = map (\<lambda>i. (0, i)) [0..<n],
                    sp_current_delta = 1,
                    sp_iter_count = 0,
                    sp_i_star = None,
                    sp_env = env \<rparr>)"

text \<open>The inner loop \<open>while len(q[i]) < qq[i]\<close>: it adds fresh zero-cost slots at the front
  of the queue.\<close>

function sp_grow ::
  "int \<Rightarrow> real \<Rightarrow> int \<Rightarrow> real list \<Rightarrow> (int \<times> real) list
     \<Rightarrow> int \<times> real list \<times> (int \<times> real) list" where
  "sp_grow qq_i theta l_i r_i q_i =
     (if int (length q_i) < qq_i
      then sp_grow qq_i theta (l_i + 1) (r_i @ [0]) ((l_i + 1 - 1, theta) # q_i)
      else (l_i, r_i, q_i))"
  by pat_completeness auto
termination
  by (relation "measure (\<lambda>(qq_i, theta, l_i, r_i, q_i). nat (qq_i - int (length q_i)))") auto

declare sp_grow.simps [simp del]

text \<open>The main loop's body is modelled statement by statement; each step takes the local
  variables as the previous one left them.

  First \<open>iter_count += 1\<close>, the pop of the cheapest configuration from the heap and the pop of
  its next request \<open>(ll, theta)\<close>.\<close>

definition sp_pop :: "sp_state \<Rightarrow> error + nat \<times> int \<times> real \<times> sp_state" where
  "sp_pop st =
     bind_err (heappop (sp_heap st)) (\<lambda>(popped, heap').
     let i = snd popped in
     bind_err (list_get (sp_q st) i) (\<lambda>q_i.
     case q_i of
       [] \<Rightarrow> Inl IndexError
     | (ll, theta) # rest \<Rightarrow>
         Inr (i, ll, theta,
              st\<lparr> sp_iter_count := sp_iter_count st + 1,
                  sp_heap := heap',
                  sp_q := (sp_q st)[i := rest] \<rparr>)))"

text \<open>\<open>if r[i][ll] == 0\<close>: a slot that has never been charged opens a new generation, which
  advances \<open>k[i]\<close> and recomputes \<open>qq[i]\<close>.\<close>

definition sp_generation ::
  "nat \<Rightarrow> real \<Rightarrow> real \<Rightarrow> real \<Rightarrow> nat \<Rightarrow> int \<Rightarrow> sp_state \<Rightarrow> error + sp_state" where
  "sp_generation n epsilon zeta beta i ll st =
     bind_err (list_get (sp_r st) i) (\<lambda>r_i.
     bind_err (py_index r_i ll) (\<lambda>r_i_ll.
     if r_i_ll = 0 then
       bind_err (list_get (sp_k st) i) (\<lambda>k_i.
       bind_err (sp_count epsilon zeta
                   (3 * beta * real n * real (k_i + 1) * real (k_i + 1))) (\<lambda>c.
       if i < length (sp_qq st)
       then Inr (st\<lparr> sp_k := (sp_k st)[i := k_i + 1], sp_qq := (sp_qq st)[i := c] \<rparr>)
       else Inl IndexError))
     else Inr st))"

text \<open>The run and the charge: a run that completes charges its runtime to the slot, a run
  that times out charges the timeout and queues the slot again with the escalated
  timeout.\<close>

definition sp_charge :: "real \<Rightarrow> nat \<Rightarrow> int \<Rightarrow> real \<Rightarrow> sp_state \<Rightarrow> error + sp_state" where
  "sp_charge theta_multiplier i ll theta st =
     (case run (sp_env st) (int i) theta (Some ll) 0 of
        (Inl e, _) \<Rightarrow> Inl e
      | (Inr (did_timeout, elapsed), env') \<Rightarrow>
          bind_err (list_get (sp_r_sum st) i) (\<lambda>r_sum_i.
          bind_err (list_get (sp_r st) i) (\<lambda>r_i.
          bind_err (py_index r_i ll) (\<lambda>r_i_ll.
          let charge = (if \<not> did_timeout then elapsed else theta);
              st' = st\<lparr> sp_env := env',
                        sp_r_sum := (sp_r_sum st)[i := r_sum_i + (charge - r_i_ll)],
                        sp_r := (sp_r st)[i := r_i[py_pos r_i ll := charge]] \<rparr>
          in if \<not> did_timeout then Inr st'
             else bind_err (list_get (sp_q st) i) (\<lambda>q_i.
                  Inr (st'\<lparr> sp_q := (sp_q st)[i := q_i @ [(ll, theta_multiplier * theta)]] \<rparr>))))))"

text \<open>The inner loop, applied to the lists of configuration \<open>i\<close>.\<close>

definition sp_extend :: "nat \<Rightarrow> real \<Rightarrow> sp_state \<Rightarrow> error + sp_state" where
  "sp_extend i theta st =
     bind_err (list_get (sp_q st) i) (\<lambda>q_i.
     bind_err (list_get (sp_qq st) i) (\<lambda>qq_i.
     if int (length q_i) < qq_i then
       bind_err (list_get (sp_l st) i) (\<lambda>l_i.
       bind_err (list_get (sp_r st) i) (\<lambda>r_i.
       let grown = sp_grow qq_i theta l_i r_i q_i
       in Inr (st\<lparr> sp_l := (sp_l st)[i := fst grown],
                   sp_r := (sp_r st)[i := fst (snd grown)],
                   sp_q := (sp_q st)[i := snd (snd grown)] \<rparr>)))
     else Inr st))"

text \<open>One iteration of the main loop up to, but not including, the re-insertion into the
  heap. It returns the configuration that was popped and the local variables at that
  point.\<close>

definition sp_front ::
  "nat \<Rightarrow> real \<Rightarrow> real \<Rightarrow> real \<Rightarrow> real \<Rightarrow> sp_state \<Rightarrow> error + nat \<times> sp_state" where
  "sp_front n epsilon zeta beta theta_multiplier st =
     bind_err (sp_pop st) (\<lambda>(i, ll, theta, st1).
     bind_err (sp_generation n epsilon zeta beta i ll st1) (\<lambda>st2.
     bind_err (sp_charge theta_multiplier i ll theta st2) (\<lambda>st3.
     bind_err (sp_extend i theta st3) (\<lambda>st4.
     Inr (i, st4)))))"

text \<open>The priority key \<open>r_sum[i] / k[i]\<close> of the re-insertion.\<close>

definition sp_priority :: "real \<Rightarrow> nat \<Rightarrow> error + real" where
  "sp_priority r_sum_i k_i = (if k_i = 0 then Inl ZeroDivisionError else Inr (r_sum_i / real k_i))"

text \<open>\<open>np.argmax\<close>: the first index of the maximum.\<close>

definition np_argmax :: "real list \<Rightarrow> error + nat" where
  "np_argmax xs =
     (if xs = [] then Inl EmptyMinValueError
      else Inr (length (takeWhile (\<lambda>x. x \<noteq> Max (set xs)) xs)))"

text \<open>The periodic recomputation
  \<open>current_delta = np.sqrt(1 + epsilon) * qq[i_star] / k[i_star]\<close>.\<close>

definition sp_recompute :: "real \<Rightarrow> sp_state \<Rightarrow> error + sp_state" where
  "sp_recompute epsilon st =
     bind_err (np_argmax (sp_r_sum st)) (\<lambda>i_star.
     bind_err (list_get (sp_qq st) i_star) (\<lambda>qq_star.
     bind_err (list_get (sp_k st) i_star) (\<lambda>k_star.
     if 1 + epsilon < 0 \<or> k_star = 0 then Inl NonFiniteFloat
     else Inr (st\<lparr> sp_i_star := Some i_star,
                    sp_current_delta := sqrt (1 + epsilon) * real_of_int qq_star / real k_star \<rparr>))))"

text \<open>The rest of the iteration: the re-insertion into the heap and, every 10000
  iterations, the recomputation.\<close>

definition sp_back :: "real \<Rightarrow> nat \<Rightarrow> sp_state \<Rightarrow> error + sp_state" where
  "sp_back epsilon i st =
     bind_err (list_get (sp_r_sum st) i) (\<lambda>r_sum_i.
     bind_err (list_get (sp_k st) i) (\<lambda>k_i.
     bind_err (sp_priority r_sum_i k_i) (\<lambda>key.
     let st1 = st\<lparr> sp_heap := heappush (sp_heap st) (key, i) \<rparr>
     in if sp_iter_count st1 mod 10000 = 0 then sp_recompute epsilon st1 else Inr st1)))"

definition sp_body ::
  "nat \<Rightarrow> real \<Rightarrow> real \<Rightarrow> real \<Rightarrow> real \<Rightarrow> sp_state \<Rightarrow> error + sp_state" where
  "sp_body n epsilon zeta beta theta_multiplier st =
     bind_err (sp_front n epsilon zeta beta theta_multiplier st) (\<lambda>(i, mid). sp_back epsilon i mid)"

text \<open>\<open>return i_star, current_delta\<close>.\<close>

definition sp_return :: "sp_state \<Rightarrow> error + (nat \<times> real) \<times> Environment" where
  "sp_return st =
     (case sp_i_star st of
        None \<Rightarrow> Inl UnboundLocalError
      | Some i_star \<Rightarrow> Inr ((i_star, sp_current_delta st), sp_env st))"

text \<open>The main loop \<open>while current_delta > delta\<close> may run forever; \<open>fuel\<close> bounds the number
  of iterations, and \<open>None\<close> means that the loop has not ended within them.\<close>

fun sp_loop ::
  "nat \<Rightarrow> nat \<Rightarrow> real \<Rightarrow> real \<Rightarrow> real \<Rightarrow> real \<Rightarrow> real \<Rightarrow> sp_state
     \<Rightarrow> (error + (nat \<times> real) \<times> Environment) option" where
  "sp_loop 0 n epsilon delta zeta beta theta_multiplier st =
     (if sp_current_delta st > delta then None else Some (sp_return st))"
| "sp_loop (Suc fuel) n epsilon delta zeta beta theta_multiplier st =
     (if sp_current_delta st > delta then
        (case sp_body n epsilon zeta beta theta_multiplier st of
           Inl e \<Rightarrow> Some (Inl e)
         | Inr st' \<Rightarrow> sp_loop fuel n epsilon delta zeta beta theta_multiplier st')
      else Some (sp_return st))"

definition structured_procrastination ::
  "nat \<Rightarrow> Environment \<Rightarrow> nat \<Rightarrow> real \<Rightarrow> real \<Rightarrow> real \<Rightarrow> real \<Rightarrow> real \<Rightarrow> real
     \<Rightarrow> (error + (nat \<times> real) \<times> Environment) option" where
  "structured_procrastination fuel env n epsilon delta zeta k0 k_bar theta_multiplier =
     (case sp_beta k_bar k0 of
        Inl e \<Rightarrow> Some (Inl e)
      | Inr beta \<Rightarrow>
          (case sp_init env n epsilon zeta k0 beta of
             Inl e \<Rightarrow> Some (Inl e)
           | Inr st \<Rightarrow> sp_loop fuel n epsilon delta zeta beta theta_multiplier st))"

text \<open>The local variables at the head of the main loop in a call of the selector: those the
  loop really passes through.\<close>

inductive sp_reaches ::
  "Environment \<Rightarrow> nat \<Rightarrow> real \<Rightarrow> real \<Rightarrow> real \<Rightarrow> real \<Rightarrow> real \<Rightarrow> real \<Rightarrow> sp_state \<Rightarrow> bool" where
  start: "sp_beta k_bar k0 = Inr beta \<Longrightarrow> sp_init env n epsilon zeta k0 beta = Inr st \<Longrightarrow>
          sp_reaches env n epsilon delta zeta k0 k_bar theta_multiplier st"
| step: "sp_reaches env n epsilon delta zeta k0 k_bar theta_multiplier st \<Longrightarrow>
         sp_beta k_bar k0 = Inr beta \<Longrightarrow>
         sp_current_delta st > delta \<Longrightarrow>
         sp_body n epsilon zeta beta theta_multiplier st = Inr st' \<Longrightarrow>
         sp_reaches env n epsilon delta zeta k0 k_bar theta_multiplier st'"

text \<open>What the main loop maintains about the generation counters: a configuration whose
  counter is still zero has no charged slot.\<close>

definition sp_inv :: "sp_state \<Rightarrow> bool" where
  "sp_inv st \<longleftrightarrow>
     length (sp_k st) = length (sp_r st) \<and>
     (\<forall>i<length (sp_k st). sp_k st ! i = 0 \<longrightarrow> (\<forall>x\<in>set (sp_r st ! i). x = 0))"

subsection \<open>A first iteration on the three-configuration environment\<close>

text \<open>The local variables of \<open>structured_procrastination\<close> on \<open>scenario_env\<close> with three
  configurations and an initial run-list length of one: at the head of the main loop before the
  first iteration, and just before the first re-insertion into the heap.\<close>

definition sp_scenario_start :: sp_state where
  "sp_scenario_start =
     \<lparr> sp_k = [0, 0, 0],
       sp_l = [1, 1, 1],
       sp_q = [[(0, 1)], [(0, 1)], [(0, 1)]],
       sp_qq = [0, 0, 0],
       sp_r = [[0], [0], [0]],
       sp_r_sum = [0, 0, 0],
       sp_heap = [(0, 0), (0, 1), (0, 2)],
       sp_current_delta = 1,
       sp_iter_count = 0,
       sp_i_star = None,
       sp_env = scenario_env \<rparr>"

definition sp_scenario_mid :: sp_state where
  "sp_scenario_mid =
     \<lparr> sp_k = [1, 0, 0],
       sp_l = [1, 1, 1],
       sp_q = [[(0, 2)], [(0, 1)], [(0, 1)]],
       sp_qq = [1, 0, 0],
       sp_r = [[1], [0], [0]],
       sp_r_sum = [1, 0, 0],
       sp_heap = [(0, 1), (0, 2)],
       sp_current_delta = 1,
       sp_iter_count = 1,
       sp_i_star = None,
       sp_env = snd (run scenario_env 0 1 (Some 0) 0) \<rparr>"

section \<open>Properties of the simulated environment\<close>

lemma py_index_in_set: "py_index xs i = Inr x \<Longrightarrow> x \<in> set xs"
  by (auto simp: py_index_def split: if_splits)

lemma ground_truth_not_InvalidTimeout: "ground_truth env c i \<noteq> Inl InvalidTimeout"
  by (auto simp: ground_truth_def py_index_def split: sum.splits if_splits)

lemma run_error_unchanged: "fst (run env c t i d) = Inl e \<Longrightarrow> snd (run env c t i d) = env"
  by (auto simp: run_def Let_def split: if_splits sum.splits option.splits)

lemma run_Some_ok:
  "t \<le> env_timeout env \<Longrightarrow> ground_truth env c i = Inr g \<Longrightarrow>
   run env c t (Some i) d =
     (Inr (t \<le> g, min t g),
      env\<lparr> env_total_runtime := env_total_runtime env + min t g,
           env_runtime_per_config :=
             (env_runtime_per_config env)
               (c \<mapsto> dd_get (env_runtime_per_config env) c + (min t g - ran_so_far_get env c i)),
           env_ran_so_far :=
             (env_ran_so_far env) (c \<mapsto> (dd_inner (env_ran_so_far env) c)(i \<mapsto> min t g)),
           env_total_resumed_runtime :=
             env_total_resumed_runtime env + (min t g - ran_so_far_get env c i) \<rparr>)"
  by (simp add: run_def Let_def)

lemma run_Some_fail:
  "ground_truth env c i = Inl e \<Longrightarrow> t \<le> env_timeout env \<Longrightarrow> run env c t (Some i) d = (Inl e, env)"
  by (simp add: run_def)

lemma ground_truth_nonneg:
  "nonneg_results env \<Longrightarrow> ground_truth env c i = Inr g \<Longrightarrow> 0 \<le> g"
  by (auto simp: ground_truth_def nonneg_results_def split: sum.splits if_splits
           dest!: py_index_in_set)

lemma ground_truth_static:
  "env_results env' = env_results env \<Longrightarrow> env_instance_count env' = env_instance_count env \<Longrightarrow>
   ground_truth env' c i = ground_truth env c i"
  by (simp add: ground_truth_def split: sum.splits)

lemma run_static:
  "env_timeout (snd (run env c t i d)) = env_timeout env \<and>
   env_results (snd (run env c t i d)) = env_results env \<and>
   env_instance_count (snd (run env c t i d)) = env_instance_count env"
  by (auto simp: run_def Let_def split: sum.splits option.splits)

lemma dd_nested_upd:
  "dd_get (dd_inner (m(c \<mapsto> (dd_inner m c)(i \<mapsto> v))) c') i'
   = (if c' = c \<and> i' = i then v else dd_get (dd_inner m c') i')"
  by (simp add: dd_inner_def dd_get_def)

lemma run_ran_so_far_self:
  "t \<le> env_timeout env \<Longrightarrow> ground_truth env c i = Inr g \<Longrightarrow>
   ran_so_far_get (snd (run env c t (Some i) d)) c i = min t g"
  by (simp add: run_Some_ok ran_so_far_get_def dd_nested_upd)

lemma ground_truth_mod:
  "i mod int (env_instance_count env) = i' mod int (env_instance_count env) \<Longrightarrow>
   ground_truth env c i = ground_truth env c i'"
  by (simp add: ground_truth_def split: sum.splits)

lemma run_call_static:
  "env_timeout (snd (run_call env x)) = env_timeout env \<and>
   env_results (snd (run_call env x)) = env_results env \<and>
   env_instance_count (snd (run_call env x)) = env_instance_count env"
  unfolding run_call_def by (rule run_static)

lemma run_seq_static:
  "env_timeout (run_seq env xs) = env_timeout env \<and>
   env_results (run_seq env xs) = env_results env \<and>
   env_instance_count (run_seq env xs) = env_instance_count env"
  by (induction xs arbitrary: env) (simp_all add: run_call_static)

lemma run_ran_so_far_other:
  "\<not> (c' = c \<and> i' = i) \<Longrightarrow>
   ran_so_far_get (snd (run env c t (Some i) d)) c' i' = ran_so_far_get env c' i'"
  by (auto simp: run_def Let_def ran_so_far_get_def dd_inner_def dd_get_def split: sum.splits)

lemma run_seq_ran_so_far_other:
  "\<forall>x\<in>set xs. \<not> (call_config x = c \<and> call_instance x = i) \<Longrightarrow>
   ran_so_far_get (run_seq env xs) c i = ran_so_far_get env c i"
proof (induction xs arbitrary: env)
  case Nil
  then show ?case by simp
next
  case (Cons x xs)
  have "ran_so_far_get (snd (run_call env x)) c i = ran_so_far_get env c i"
    unfolding run_call_def using Cons.prems by (intro run_ran_so_far_other) auto
  with Cons show ?case by simp
qed

lemma elapsed_of_eq:
  "elapsed_of env x =
     (if call_timeout x > env_timeout env then 0
      else case ground_truth env (call_config x) (call_instance x) of
             Inl _ \<Rightarrow> 0 | Inr g \<Rightarrow> min (call_timeout x) g)"
  by (simp add: elapsed_of_def run_call_def run_def Let_def split: sum.splits)

lemma elapsed_of_static:
  "env_timeout env' = env_timeout env \<Longrightarrow> env_results env' = env_results env \<Longrightarrow>
   env_instance_count env' = env_instance_count env \<Longrightarrow> elapsed_of env' x = elapsed_of env x"
  using ground_truth_static[of env' env "call_config x" "call_instance x"]
  by (simp add: elapsed_of_eq)

lemma charged_then_requeried_static:
  "env_timeout env' = env_timeout env \<Longrightarrow> env_results env' = env_results env \<Longrightarrow>
   env_instance_count env' = env_instance_count env \<Longrightarrow>
   charged_then_requeried env' xs = charged_then_requeried env xs"
  by (induction xs) (simp_all add: elapsed_of_static[of env' env])

lemma call_ok_static:
  "env_results env' = env_results env \<Longrightarrow> env_instance_count env' = env_instance_count env \<Longrightarrow>
   call_ok env' x = call_ok env x"
  by (simp add: call_ok_def ground_truth_static[of env' env])

lemma step_fail:
  assumes "call_timeout x \<le> env_timeout env" and "\<not> call_ok env x"
  shows "snd (run_call env x) = env" and "elapsed_of env x = 0"
proof -
  obtain e where "ground_truth env (call_config x) (call_instance x) = Inl e"
    using assms(2) by (auto simp: call_ok_def isl_def)
  then have "run_call env x = (Inl e, env)"
    using assms(1) by (simp add: run_call_def run_Some_fail)
  then show "snd (run_call env x) = env" and "elapsed_of env x = 0"
    by (simp_all add: elapsed_of_def)
qed

lemma step_ok:
  assumes "call_timeout x \<le> env_timeout env" and "call_ok env x"
  shows "ledger_gap (snd (run_call env x)) = ledger_gap env + entry_of env x"
    and "entry_of (snd (run_call env x)) y
           = (if same_pair x y then elapsed_of env x else entry_of env y)"
proof -
  obtain g where g: "ground_truth env (call_config x) (call_instance x) = Inr g"
    using assms(2) by (cases "ground_truth env (call_config x) (call_instance x)")
                      (auto simp: call_ok_def)
  note r = run_Some_ok[OF assms(1) g, of 0]
  show "ledger_gap (snd (run_call env x)) = ledger_gap env + entry_of env x"
    by (simp add: run_call_def r ledger_gap_def entry_of_def)
  have el: "elapsed_of env x = min (call_timeout x) g"
    by (simp add: elapsed_of_def run_call_def r)
  show "entry_of (snd (run_call env x)) y
           = (if same_pair x y then elapsed_of env x else entry_of env y)"
    by (simp add: run_call_def r entry_of_def ran_so_far_get_def dd_nested_upd el same_pair_def)
qed

lemma elapsed_of_nonneg:
  assumes "0 \<le> call_timeout x" and "nonneg_results env"
  shows "0 \<le> elapsed_of env x"
proof (cases "ground_truth env (call_config x) (call_instance x)")
  case (Inl e)
  then show ?thesis by (simp add: elapsed_of_eq)
next
  case (Inr g)
  then have "0 \<le> g" using assms(2) ground_truth_nonneg by blast
  with Inr assms(1) show ?thesis by (simp add: elapsed_of_eq)
qed

lemma same_pair_entry: "same_pair x y \<Longrightarrow> entry_of env y = entry_of env x"
  by (simp add: same_pair_def entry_of_def)

lemma same_pair_ok: "same_pair x y \<Longrightarrow> call_ok env y = call_ok env x"
  by (simp add: same_pair_def call_ok_def)

lemma gap_general:
  assumes "\<forall>x\<in>set xs. 0 \<le> call_timeout x \<and> call_timeout x \<le> env_timeout env"
    and "nonneg_results env"
    and "\<forall>y. 0 \<le> entry_of env y"
  shows "ledger_gap env \<le> ledger_gap (run_seq env xs) \<and>
         (ledger_gap (run_seq env xs) = ledger_gap env \<longleftrightarrow>
            \<not> ((\<exists>y\<in>set xs. call_ok env y \<and> entry_of env y \<noteq> 0) \<or> charged_then_requeried env xs))"
  using assms
proof (induction xs arbitrary: env)
  case Nil
  then show ?case by simp
next
  case (Cons x xs)
  define env' where "env' = snd (run_call env x)"
  have st: "env_timeout env' = env_timeout env" "env_results env' = env_results env"
    "env_instance_count env' = env_instance_count env"
    using run_call_static[of env x] by (simp_all add: env'_def)
  have tx: "0 \<le> call_timeout x" "call_timeout x \<le> env_timeout env"
    using Cons.prems(1) by simp_all
  have nn': "nonneg_results env'"
    using Cons.prems(2) st by (simp add: nonneg_results_def)
  have el0: "0 \<le> elapsed_of env x"
    using tx(1) Cons.prems(2) by (rule elapsed_of_nonneg)
  show ?case
  proof (cases "call_ok env x")
    case False
    have same: "env' = env" and z: "elapsed_of env x = 0"
      using step_fail[OF tx(2) False] by (simp_all add: env'_def)
    have IH: "ledger_gap env \<le> ledger_gap (run_seq env xs) \<and>
         (ledger_gap (run_seq env xs) = ledger_gap env \<longleftrightarrow>
            \<not> ((\<exists>y\<in>set xs. call_ok env y \<and> entry_of env y \<noteq> 0) \<or> charged_then_requeried env xs))"
      using Cons.prems by (intro Cons.IH) simp_all
    have "run_seq env (x # xs) = run_seq env xs"
      using same by (simp add: env'_def)
    then show ?thesis using IH False z by simp
  next
    case True
    have gap: "ledger_gap env' = ledger_gap env + entry_of env x"
      and ent: "\<And>y. entry_of env' y = (if same_pair x y then elapsed_of env x else entry_of env y)"
      using step_ok[OF tx(2) True] by (simp_all add: env'_def)
    have pos': "\<forall>y. 0 \<le> entry_of env' y"
      using ent el0 Cons.prems(3) by simp
    have t': "\<forall>y\<in>set xs. 0 \<le> call_timeout y \<and> call_timeout y \<le> env_timeout env'"
      using Cons.prems(1) st by simp
    have IH: "ledger_gap env' \<le> ledger_gap (run_seq env' xs) \<and>
         (ledger_gap (run_seq env' xs) = ledger_gap env' \<longleftrightarrow>
            \<not> ((\<exists>y\<in>set xs. call_ok env' y \<and> entry_of env' y \<noteq> 0) \<or> charged_then_requeried env' xs))"
      using t' nn' pos' by (rule Cons.IH)
    have ok': "\<And>y. call_ok env' y = call_ok env y"
      using st by (simp add: call_ok_static[of env' env])
    have ctr': "charged_then_requeried env' xs = charged_then_requeried env xs"
      using st by (simp add: charged_then_requeried_static[of env' env])
    have ex0: "0 \<le> entry_of env x" using Cons.prems(3) by simp
    have fin: "run_seq env (x # xs) = run_seq env' xs" by (simp add: env'_def)
    have le: "ledger_gap env \<le> ledger_gap (run_seq env (x # xs))"
      using IH gap ex0 fin by simp
    have eq: "(ledger_gap (run_seq env (x # xs)) = ledger_gap env) \<longleftrightarrow>
              (entry_of env x = 0 \<and> ledger_gap (run_seq env' xs) = ledger_gap env')"
      using IH gap ex0 fin by auto
    have mid: "(\<exists>y\<in>set xs. call_ok env y \<and> entry_of env' y \<noteq> 0) \<longleftrightarrow>
               ((elapsed_of env x \<noteq> 0 \<and> (\<exists>y\<in>set xs. same_pair x y)) \<or>
                (\<exists>y\<in>set xs. \<not> same_pair x y \<and> call_ok env y \<and> entry_of env y \<noteq> 0))"
      using True by (auto simp: ent same_pair_ok)
    have "(ledger_gap (run_seq env (x # xs)) = ledger_gap env) \<longleftrightarrow>
       \<not> ((\<exists>y\<in>set (x # xs). call_ok env y \<and> entry_of env y \<noteq> 0) \<or>
           charged_then_requeried env (x # xs))"
      unfolding eq using IH True mid ok' ctr' same_pair_entry[of x _ env]
      by auto
    with le show ?thesis by simp
  qed
qed

lemmas ledger_eval =
  scenario_env_def mk_call_def run_call_def run_def ground_truth_def py_index_def reset_def
  dd_get_def dd_inner_def ran_so_far_get_def get_total_runtime_def get_total_resumed_runtime_def
  Let_def same_pair_def nonneg_results_def

text \<open>
  Claim C2. \<open>run\<close> raises the invalid-timeout error if and only if the requested timeout
  exceeds the configured ceiling, and then the environment (both counters, the
  per-configuration accumulator and the resumption map) is exactly as before.
\<close>

theorem run_InvalidTimeout_iff:
  "(fst (run env c t i d) = Inl InvalidTimeout \<longleftrightarrow> env_timeout env < t) \<and>
   (env_timeout env < t \<longrightarrow> snd (run env c t i d) = env)"
  using ground_truth_not_InvalidTimeout[of env c]
  by (auto simp: run_def Let_def randint_def split: sum.splits option.splits)

theorem run_InvalidTimeout_iff_witness:
  "fst (run scenario_env 1 25 (Some 0) 0) = Inl InvalidTimeout \<and>
   snd (run scenario_env 1 25 (Some 0) 0) = scenario_env"
proof -
  have "env_timeout scenario_env < 25" by (simp add: scenario_env_def)
  with run_InvalidTimeout_iff[of scenario_env 1 25 "Some 0" 0] show ?thesis by blast
qed



text \<open>
  Claim C4. After \<open>run(c, t1, i)\<close> and any calls on other pairs, \<open>run(c, t2, i)\<close> with
  \<open>t1 < t2 \<le> ceiling\<close> and ground truth at least \<open>t2\<close> times out at \<open>t2\<close> and adds exactly
  \<open>t2 - t1\<close> to \<open>total_resumed_runtime\<close> and to the accumulator of configuration \<open>c\<close>.
\<close>

theorem resumed_charge_exact:
  assumes "t1 < t2" and "t2 \<le> env_timeout env" and "ground_truth env c i = Inr g" and "t2 \<le> g"
    and "\<forall>x\<in>set between. \<not> (call_config x = c \<and> call_instance x = i)"
    and "env1 = snd (run env c t1 (Some i) d1)"
    and "env2 = run_seq env1 between"
    and "env3 = snd (run env2 c t2 (Some i) d2)"
  shows "fst (run env2 c t2 (Some i) d2) = Inr (True, t2) \<and>
         env_total_resumed_runtime env3 - env_total_resumed_runtime env2 = t2 - t1 \<and>
         dd_get (env_runtime_per_config env3) c - dd_get (env_runtime_per_config env2) c = t2 - t1"
proof -
  have r1: "ran_so_far_get env1 c i = t1"
    using assms by (simp add: run_ran_so_far_self)
  have r2: "ran_so_far_get env2 c i = t1"
    using assms(5) r1 by (simp add: assms(7) run_seq_ran_so_far_other)
  have s1: "env_timeout env1 = env_timeout env" "env_results env1 = env_results env"
    "env_instance_count env1 = env_instance_count env"
    using run_static[of env c t1 "Some i" d1] by (simp_all add: assms(6))
  have s2: "env_timeout env2 = env_timeout env" "env_results env2 = env_results env"
    "env_instance_count env2 = env_instance_count env"
    using run_seq_static[of env1 between] s1 by (simp_all add: assms(7))
  have g2: "ground_truth env2 c i = Inr g"
    using ground_truth_static[of env2 env c i] s2 assms(3) by simp
  have le: "t2 \<le> env_timeout env2" using s2 assms(2) by simp
  show ?thesis
    using assms(1,4) r2 by (simp add: assms(8) run_Some_ok[OF le g2] dd_get_def)
qed

theorem resumed_charge_exact_witness:
  "env_total_resumed_runtime (snd (run (run_seq (snd (run scenario_env 1 4 (Some 2) 0)) [mk_call 0 1 2]) 1 9 (Some 2) 0))
   - env_total_resumed_runtime (run_seq (snd (run scenario_env 1 4 (Some 2) 0)) [mk_call 0 1 2]) = 9 - 4"
proof -
  have h1: "(4::real) < 9" by simp
  have h2: "9 \<le> env_timeout scenario_env" by (simp add: scenario_env_def)
  have h3: "ground_truth scenario_env 1 2 = Inr 10" by (simp add: ledger_eval)
  have h4: "(9::real) \<le> 10" by simp
  have h5: "\<forall>x\<in>set [mk_call 0 1 2]. \<not> (call_config x = 1 \<and> call_instance x = 2)"
    by (simp add: mk_call_def)
  from resumed_charge_exact[OF h1 h2 h3 h4 h5 refl refl refl, of 0 0] show ?thesis by simp
qed

text \<open>
  Claim C9. The returned pair depends on the instance identifier only through its residue
  modulo the instance count and not on the counters or the resumption map; the resumption
  entries of \<open>i\<close> and \<open>i + m\<close> are separate, so a run of one leaves the other's entry alone
  and each is charged against its own entry.
\<close>

theorem run_instance_modulo:
  "(env_timeout env' = env_timeout env \<and> env_results env' = env_results env \<and>
    env_instance_count env' = env_instance_count env \<and>
    i mod int (env_instance_count env) = i' mod int (env_instance_count env)
      \<longrightarrow> fst (run env' c t (Some i') d') = fst (run env c t (Some i) d)) \<and>
   (0 < env_instance_count env \<and> t \<le> env_timeout env \<and> ground_truth env c i = Inr g
      \<longrightarrow> (let env1 = snd (run env c t (Some i) d); j = i + int (env_instance_count env) in
            fst (run env c t (Some j) d) = fst (run env c t (Some i) d) \<and>
            ran_so_far_get env1 c i = min t g \<and>
            ran_so_far_get env1 c j = ran_so_far_get env c j \<and>
            env_total_resumed_runtime env1 - env_total_resumed_runtime env
              = min t g - ran_so_far_get env c i \<and>
            env_total_resumed_runtime (snd (run env1 c t (Some j) d)) - env_total_resumed_runtime env1
              = min t g - ran_so_far_get env c j))"
proof (intro conjI impI)
  assume a: "env_timeout env' = env_timeout env \<and> env_results env' = env_results env \<and>
    env_instance_count env' = env_instance_count env \<and>
    i mod int (env_instance_count env) = i' mod int (env_instance_count env)"
  then have "ground_truth env' c i' = ground_truth env c i"
    using ground_truth_mod[of i env i' c] ground_truth_static[of env' env c i'] by simp
  with a show "fst (run env' c t (Some i') d') = fst (run env c t (Some i) d)"
    by (simp add: run_def Let_def split: sum.splits)
next
  assume a: "0 < env_instance_count env \<and> t \<le> env_timeout env \<and> ground_truth env c i = Inr g"
  define j where "j = i + int (env_instance_count env)"
  define env1 where "env1 = snd (run env c t (Some i) d)"
  have gj: "ground_truth env c j = Inr g"
    using a ground_truth_mod[of j env i c] by (simp add: j_def)
  have ne: "j \<noteq> i" using a by (simp add: j_def)
  have st: "env_timeout env1 = env_timeout env" "ground_truth env1 c j = Inr g"
    using gj ground_truth_static[of env1 env c j] run_static[of env c t "Some i" d]
    by (simp_all add: env1_def)
  have e1: "ran_so_far_get env1 c i = min t g"
    using a by (simp add: env1_def run_ran_so_far_self)
  have e2: "ran_so_far_get env1 c j = ran_so_far_get env c j"
    unfolding env1_def using ne by (intro run_ran_so_far_other) simp
  have e3: "env_total_resumed_runtime env1 - env_total_resumed_runtime env
              = min t g - ran_so_far_get env c i"
    using a by (simp add: env1_def run_Some_ok)
  have e4: "env_total_resumed_runtime (snd (run env1 c t (Some j) d)) - env_total_resumed_runtime env1
              = min t g - ran_so_far_get env c j"
    using a st e2 by (simp add: run_Some_ok)
  have e0: "fst (run env c t (Some j) d) = fst (run env c t (Some i) d)"
    using a gj by (simp add: run_Some_ok)
  show "let env1 = snd (run env c t (Some i) d); j = i + int (env_instance_count env) in
            fst (run env c t (Some j) d) = fst (run env c t (Some i) d) \<and>
            ran_so_far_get env1 c i = min t g \<and>
            ran_so_far_get env1 c j = ran_so_far_get env c j \<and>
            env_total_resumed_runtime env1 - env_total_resumed_runtime env
              = min t g - ran_so_far_get env c i \<and>
            env_total_resumed_runtime (snd (run env1 c t (Some j) d)) - env_total_resumed_runtime env1
              = min t g - ran_so_far_get env c j"
    unfolding Let_def using e0 e1 e2 e3 e4 by (simp only: env1_def j_def) 
qed

theorem run_instance_modulo_witness:
  "fst (run scenario_env 1 7 (Some 8) 0) = fst (run scenario_env 1 7 (Some 3) 0) \<and>
   ran_so_far_get (snd (run scenario_env 1 7 (Some 3) 0)) 1 3 = 7 \<and>
   ran_so_far_get (snd (run scenario_env 1 7 (Some 3) 0)) 1 8 = 0"
proof -
  have h: "0 < env_instance_count scenario_env \<and> 7 \<le> env_timeout scenario_env \<and>
           ground_truth scenario_env 1 3 = Inr 10"
    by (simp add: ledger_eval)
  have s: "env_timeout scenario_env = env_timeout scenario_env \<and>
    env_results scenario_env = env_results scenario_env \<and>
    env_instance_count scenario_env = env_instance_count scenario_env \<and>
    3 mod int (env_instance_count scenario_env) = 8 mod int (env_instance_count scenario_env)"
    by (simp add: scenario_env_def)
  have e: "3 + int (env_instance_count scenario_env) = 8" "ran_so_far_get scenario_env 1 8 = 0"
    by (simp_all add: ledger_eval)
  from run_instance_modulo[of scenario_env scenario_env 3 8 1 7 0 0 10] h s e
  show ?thesis by (simp add: Let_def)
qed

text \<open>
  Claim C5, as amended. A successful call with a non-negative timeout over non-negative
  measurements never decreases \<open>total_runtime\<close>. It leaves \<open>total_resumed_runtime\<close>
  non-decreasing exactly when the runtime it returns is at least the pair's recorded
  \<open>ran_so_far\<close> entry; a retry that returns less than the previous attempt lowers the
  counter.
\<close>

theorem counters_step:
  assumes "0 \<le> t" and "nonneg_results env"
    and "run env c t (Some i) d = (Inr (timed_out, elapsed), env')"
  shows "get_total_runtime env \<le> get_total_runtime env' \<and>
         (get_total_resumed_runtime env \<le> get_total_resumed_runtime env'
            \<longleftrightarrow> ran_so_far_get env c i \<le> elapsed)"
proof -
  have le: "t \<le> env_timeout env"
    using assms(3) by (auto simp: run_def split: if_splits)
  obtain g where g: "ground_truth env c i = Inr g"
    using assms(3) le by (cases "ground_truth env c i") (auto simp: run_def)
  have "0 \<le> g" using assms(2) g by (rule ground_truth_nonneg)
  then show ?thesis
    using assms(1,3) unfolding run_Some_ok[OF le g]
    by (auto simp: get_total_runtime_def get_total_resumed_runtime_def)
qed

theorem counters_step_witness:
  "get_total_runtime scenario_env \<le> get_total_runtime (snd (run scenario_env 1 5 (Some 0) 0)) \<and>
   get_total_resumed_runtime scenario_env \<le> get_total_resumed_runtime (snd (run scenario_env 1 5 (Some 0) 0))"
proof -
  have h1: "(0::real) \<le> 5" by simp
  have h2: "nonneg_results scenario_env" by (simp add: ledger_eval)
  have h3: "run scenario_env 1 5 (Some 0) 0
            = (Inr (True, 5), snd (run scenario_env 1 5 (Some 0) 0))"
    by (simp add: ledger_eval)
  have "ran_so_far_get scenario_env 1 0 \<le> 5" by (simp add: ledger_eval)
  with counters_step[OF h1 h2 h3] show ?thesis by simp
qed

theorem resumed_monotone_counterexample:
  "get_total_resumed_runtime (run_seq (reset scenario_env) [mk_call 1 5 0, mk_call 1 3 0])
     < get_total_resumed_runtime (run_seq (reset scenario_env) [mk_call 1 5 0])"
  by (simp add: ledger_eval)

text \<open>
  Claim C1, as amended. On a freshly reset ledger, after any sequence of calls with explicit
  instances whose timeouts are non-negative and within the measurement ceiling, over
  non-negative measurements, \<open>total_resumed_runtime \<le> total_runtime\<close>. The two counters are
  equal exactly when no call that returned a non-zero runtime is followed by another call on
  the same (configuration, raw instance) pair: a repeated query breaks the equality whether
  its timeout is larger, equal or smaller than before.
\<close>

theorem accounting_invariant:
  assumes "\<forall>x\<in>set calls. 0 \<le> call_timeout x \<and> call_timeout x \<le> env_timeout env"
    and "nonneg_results env"
  shows "get_total_resumed_runtime (run_seq (reset env) calls)
           \<le> get_total_runtime (run_seq (reset env) calls) \<and>
         (get_total_resumed_runtime (run_seq (reset env) calls)
            = get_total_runtime (run_seq (reset env) calls)
          \<longleftrightarrow> \<not> charged_then_requeried env calls)"
proof -
  have st: "env_timeout (reset env) = env_timeout env" "env_results (reset env) = env_results env"
    "env_instance_count (reset env) = env_instance_count env"
    by (simp_all add: reset_def)
  have z: "\<forall>y. entry_of (reset env) y = 0"
    by (simp add: entry_of_def ran_so_far_get_def reset_def dd_inner_def dd_get_def)
  have g0: "ledger_gap (reset env) = 0"
    by (simp add: ledger_gap_def reset_def)
  have "ledger_gap (reset env) \<le> ledger_gap (run_seq (reset env) calls) \<and>
         (ledger_gap (run_seq (reset env) calls) = ledger_gap (reset env) \<longleftrightarrow>
            \<not> ((\<exists>y\<in>set calls. call_ok (reset env) y \<and> entry_of (reset env) y \<noteq> 0)
                \<or> charged_then_requeried (reset env) calls))"
    using assms z st by (intro gap_general) (simp_all add: nonneg_results_def)
  then have "0 \<le> ledger_gap (run_seq (reset env) calls) \<and>
         (ledger_gap (run_seq (reset env) calls) = 0 \<longleftrightarrow> \<not> charged_then_requeried env calls)"
    using z g0 charged_then_requeried_static[of "reset env" env calls] st by simp
  then show ?thesis
    by (auto simp: ledger_gap_def get_total_runtime_def get_total_resumed_runtime_def)
qed

theorem accounting_invariant_witness:
  "get_total_resumed_runtime (run_seq (reset scenario_env) [mk_call 1 5 0, mk_call 1 7 0, mk_call 2 3 1])
     < get_total_runtime (run_seq (reset scenario_env) [mk_call 1 5 0, mk_call 1 7 0, mk_call 2 3 1])
   \<and> charged_then_requeried scenario_env [mk_call 1 5 0, mk_call 1 7 0, mk_call 2 3 1]"
proof -
  let ?cs = "[mk_call 1 5 0, mk_call 1 7 0, mk_call 2 3 1]"
  have h1: "\<forall>x\<in>set ?cs. 0 \<le> call_timeout x \<and> call_timeout x \<le> env_timeout scenario_env"
    by (simp add: ledger_eval)
  have h2: "nonneg_results scenario_env"
    by (simp add: ledger_eval)
  have c: "charged_then_requeried scenario_env ?cs"
    by (simp add: ledger_eval elapsed_of_eq)
  from accounting_invariant[OF h1 h2] c show ?thesis by auto
qed

theorem accounting_equality_counterexample:
  "\<not> (get_total_resumed_runtime (run_seq (reset scenario_env) [mk_call 1 5 0, mk_call 1 5 0])
        = get_total_runtime (run_seq (reset scenario_env) [mk_call 1 5 0, mk_call 1 5 0])
      \<longleftrightarrow> \<not> retried_larger [mk_call 1 5 0, mk_call 1 5 0])"
  by (simp add: ledger_eval)

section \<open>Properties of the sequential estimator\<close>








section \<open>Properties of the Leaps and Bounds round loop\<close>

lemma np_argmin_first_min:
  assumes "xs \<noteq> []"
  shows "\<exists>w. np_argmin xs = Inr w \<and> w < length xs \<and> xs ! w = Min (set xs) \<and>
             (\<forall>i<length xs. xs ! w \<le> xs ! i) \<and> (\<forall>i<w. xs ! i \<noteq> xs ! w)"
proof -
  define w where "w = length (takeWhile (\<lambda>x. x \<noteq> Min (set xs)) xs)"
  have fin: "finite (set xs)" "set xs \<noteq> {}" using assms by simp_all
  have "Min (set xs) \<in> set xs" using fin by (rule Min_in)
  have lt: "w < length xs"
  proof (rule ccontr)
    assume "\<not> w < length xs"
    then have "w = length xs"
      using length_takeWhile_le[of "\<lambda>x. x \<noteq> Min (set xs)" xs] by (simp add: w_def)
    then have "takeWhile (\<lambda>x. x \<noteq> Min (set xs)) xs = xs"
      using takeWhile_eq_take[of "\<lambda>x. x \<noteq> Min (set xs)" xs] by (simp add: w_def)
    then have "\<forall>x\<in>set xs. x \<noteq> Min (set xs)"
      by (simp only: takeWhile_eq_all_conv)
    with \<open>Min (set xs) \<in> set xs\<close> show False by blast
  qed
  have at: "xs ! w = Min (set xs)"
    using nth_length_takeWhile[of "\<lambda>x. x \<noteq> Min (set xs)" xs] lt unfolding w_def by simp
  have le: "\<forall>i<length xs. xs ! w \<le> xs ! i"
    using at fin by simp
  have first: "\<forall>i<w. xs ! i \<noteq> xs ! w"
  proof (intro allI impI)
    fix i assume "i < w"
    then have iw: "i < length (takeWhile (\<lambda>x. x \<noteq> Min (set xs)) xs)"
      by (simp add: w_def)
    then have "takeWhile (\<lambda>x. x \<noteq> Min (set xs)) xs ! i
                 \<in> set (takeWhile (\<lambda>x. x \<noteq> Min (set xs)) xs)"
      by (rule nth_mem)
    then have "xs ! i \<in> set (takeWhile (\<lambda>x. x \<noteq> Min (set xs)) xs)"
      using takeWhile_nth[OF iw] by simp
    then show "xs ! i \<noteq> xs ! w" using at by (auto dest: set_takeWhileD)
  qed
  have "np_argmin xs = Inr w" using assms by (simp add: np_argmin_def w_def)
  with lt at le first show ?thesis by blast
qed

lemma np_min_less_iff:
  assumes "xs \<noteq> []"
  shows "\<exists>m. np_min xs = Inr m \<and> (m < theta \<longleftrightarrow> (\<exists>i<length xs. xs ! i < theta))"
proof -
  have "Min (set xs) < theta \<longleftrightarrow> (\<exists>x\<in>set xs. x < theta)"
    using assms by (simp add: Min_less_iff)
  also have "\<dots> \<longleftrightarrow> (\<exists>i<length xs. xs ! i < theta)"
    by (metis in_set_conv_nth)
  finally show ?thesis using assms by (simp add: np_min_def)
qed

lemma estimate_all_length:
  "estimate_all b delta theta k epsilon zeta n remaining i q_hat env = Inr (q_hat', env')
   \<Longrightarrow> length q_hat' = length q_hat + remaining"
proof (induction remaining arbitrary: i q_hat env)
  case 0
  then show ?case by simp
next
  case (Suc remaining)
  then show ?case by (auto split: sum.splits)
qed

lemma estimate_all_delta:
  assumes "estimate_all b delta theta k epsilon zeta n (Suc remaining) i q_hat env = Inr r"
  shows "tau_of theta delta = Inr (4 * theta / (3 * delta))"
proof -
  have "\<not> isl (ebgstop_slave_alg env (int i) b delta theta k epsilon zeta n)"
    using assms by (auto split: sum.splits)
  then show ?thesis
    by (auto simp: ebgstop_slave_alg_def tau_of_def split: if_splits)
qed

text \<open>
  Claim C7. In a round whose estimates \<open>q_hat\<close> have been computed, the round loop returns
  exactly when some configuration's estimate is strictly below the round's \<open>theta\<close>; it
  then returns the index of the first minimum of \<open>q_hat\<close>, that minimum, and
  \<open>4 * theta / (3 * delta)\<close>. Otherwise the loop goes on with \<open>theta * theta_multiplier\<close>
  and the next round number, and this \<open>theta\<close> is not smaller than the old one when the
  multiplier is at least 1 and the threshold is non-negative.
\<close>

theorem leaps_and_bounds_round:
  assumes "lb_b n (lb_k st + 1) epsilon delta zeta = Inr b"
    and "estimate_all b delta (lb_theta st) (lb_k st + 1) epsilon zeta n n 0 [] (lb_env st)
           = Inr (q_hat, env')"
    and "0 < n"
  shows "if \<exists>i<n. q_hat ! i < lb_theta st
         then \<exists>w. leaps_and_bounds_loop (Suc fuel) n epsilon delta zeta theta_multiplier st
                     = Some (Inr ((w, q_hat ! w, 4 * lb_theta st / (3 * delta)), env')) \<and>
                   np_argmin q_hat = Inr w \<and> w < n \<and> (\<forall>i<n. q_hat ! w \<le> q_hat ! i)
         else leaps_and_bounds_loop (Suc fuel) n epsilon delta zeta theta_multiplier st
                = leaps_and_bounds_loop fuel n epsilon delta zeta theta_multiplier
                    \<lparr> lb_theta = lb_theta st * theta_multiplier, lb_k = lb_k st + 1,
                      lb_env = env' \<rparr> \<and>
              (1 \<le> theta_multiplier \<and> 0 \<le> lb_theta st
                 \<longrightarrow> lb_theta st \<le> lb_theta st * theta_multiplier)"
proof -
  have len: "length q_hat = n"
    using estimate_all_length[OF assms(2)] by simp
  then have ne: "q_hat \<noteq> []" using assms(3) by auto
  obtain n' where n': "n = Suc n'" using assms(3) by (cases n) auto
  have tau: "tau_of (lb_theta st) delta = Inr (4 * lb_theta st / (3 * delta))"
    using assms(2) unfolding n' by (rule estimate_all_delta)
  obtain m where m: "np_min q_hat = Inr m"
    and miff: "m < lb_theta st \<longleftrightarrow> (\<exists>i<n. q_hat ! i < lb_theta st)"
    using np_min_less_iff[OF ne, of "lb_theta st"] len by auto
  obtain w where w: "np_argmin q_hat = Inr w" "w < n" "\<forall>i<n. q_hat ! w \<le> q_hat ! i"
    using np_argmin_first_min[OF ne] len by auto
  show ?thesis
  proof (cases "\<exists>i<n. q_hat ! i < lb_theta st")
    case True
    then have "m < lb_theta st" using miff by simp
    then have "leaps_and_bounds_loop (Suc fuel) n epsilon delta zeta theta_multiplier st
                 = Some (Inr ((w, q_hat ! w, 4 * lb_theta st / (3 * delta)), env'))"
      using assms(1,2) m w(1) tau by (simp add: lb_body_def Let_def)
    with w have "\<exists>w. leaps_and_bounds_loop (Suc fuel) n epsilon delta zeta theta_multiplier st
                     = Some (Inr ((w, q_hat ! w, 4 * lb_theta st / (3 * delta)), env')) \<and>
                   np_argmin q_hat = Inr w \<and> w < n \<and> (\<forall>i<n. q_hat ! w \<le> q_hat ! i)"
      by blast
    then show ?thesis by (subst if_P) (rule True)
  next
    case False
    then have "\<not> m < lb_theta st" using miff by simp
    then have "leaps_and_bounds_loop (Suc fuel) n epsilon delta zeta theta_multiplier st
                = leaps_and_bounds_loop fuel n epsilon delta zeta theta_multiplier
                    \<lparr> lb_theta = lb_theta st * theta_multiplier, lb_k = lb_k st + 1,
                      lb_env = env' \<rparr>"
      using assms(1,2) m by (simp add: lb_body_def Let_def)
    moreover have "1 \<le> theta_multiplier \<and> 0 \<le> lb_theta st
                 \<longrightarrow> lb_theta st \<le> lb_theta st * theta_multiplier"
      by (simp add: mult_le_cancel_left1)
    ultimately have "leaps_and_bounds_loop (Suc fuel) n epsilon delta zeta theta_multiplier st
                = leaps_and_bounds_loop fuel n epsilon delta zeta theta_multiplier
                    \<lparr> lb_theta = lb_theta st * theta_multiplier, lb_k = lb_k st + 1,
                      lb_env = env' \<rparr> \<and>
              (1 \<le> theta_multiplier \<and> 0 \<le> lb_theta st
                 \<longrightarrow> lb_theta st \<le> lb_theta st * theta_multiplier)"
      by (rule conjI)
    then show ?thesis by (subst if_not_P) (rule False)
  qed
qed

lemma lb_b_scenario: "lb_b 3 1 10 0.44 360 = Inr 1"
proof -
  have "0 < ln (2::real)" by simp
  moreover have "ln (2::real) \<le> 1" using ln_2_less_1 by simp
  ultimately have "\<lceil>ln (2::real)\<rceil> = 1" by (intro ceiling_unique) simp_all
  then show ?thesis by (simp add: lb_b_def R_def)
qed

lemmas est_eval =
  ebgstop_slave_alg_def tau_of_def ebgstop_init_def ebgstop_body_def ebgstop_run_def
  ebgstop_schedule_def ebgstop_tests_def np_mean_def ebgstop_beta_def

lemma est0: "map_sum id fst (ebgstop_slave_alg scenario_env 0 1 0.44 (16/7) 1 10 360 3) = Inr 1"
  by (simp add: est_eval ledger_eval)

lemma estimate_all_scenario:
  "map_sum id fst (estimate_all 1 0.44 (16/7) 1 10 360 3 3 0 [] scenario_env) = Inr [1, 16/7, 16/7]"
  by (simp add: est_eval ledger_eval numeral_3_eq_3)


theorem leaps_and_bounds_round_witness:
  "map_option (map_sum id fst)
     (leaps_and_bounds_loop (Suc 0) 3 10 0.44 360 1.25
        \<lparr> lb_theta = 16/7, lb_k = 0, lb_env = scenario_env \<rparr>)
   = Some (Inr (0, 1, 4 * (16/7) / (3 * 0.44)))"
proof -
  let ?st = "\<lparr> lb_theta = 16/7, lb_k = 0, lb_env = scenario_env \<rparr>"
  obtain q_hat env' where
    e: "estimate_all 1 0.44 (16/7) 1 10 360 3 3 0 [] scenario_env = Inr (q_hat, env')"
    and q: "q_hat = [1, 16/7, 16/7]"
    using estimate_all_scenario
    by (cases "estimate_all 1 0.44 (16/7) 1 10 360 3 3 0 [] scenario_env") auto
  have h1: "lb_b 3 (lb_k ?st + 1) 10 0.44 360 = Inr 1"
    using lb_b_scenario by simp
  have h2: "estimate_all 1 0.44 (lb_theta ?st) (lb_k ?st + 1) 10 360 3 3 0 [] (lb_env ?st)
              = Inr (q_hat, env')"
    using e by simp
  have h3: "(0::nat) < 3" by simp
  have ex: "\<exists>i<3. q_hat ! i < lb_theta ?st"
    unfolding q by (rule exI[of _ 0]) simp
  have am: "np_argmin q_hat = Inr 0"
    unfolding q by (simp add: np_argmin_def)
  from leaps_and_bounds_round[OF h1 h2 h3, of 0 "1.25"] ex am
  have "leaps_and_bounds_loop (Suc 0) 3 10 0.44 360 1.25 ?st
          = Some (Inr ((0, q_hat ! 0, 4 * lb_theta ?st / (3 * 0.44)), env'))"
    by auto
  then show ?thesis by (simp add: q)
qed

section \<open>Properties of Structured Procrastination\<close>

lemma bind_err_simps [simp]:
  "bind_err (Inl e) f = Inl e"
  "bind_err (Inr x) f = f x"
  by (simp_all add: bind_err_def)

lemma bind_err_Inr_iff: "bind_err m f = Inr y \<longleftrightarrow> (\<exists>x. m = Inr x \<and> f x = Inr y)"
  by (cases m) simp_all

lemma list_get_Inr_iff: "list_get xs i = Inr x \<longleftrightarrow> i < length xs \<and> x = xs ! i"
  by (auto simp: list_get_def)

lemma sp_pop_Inr:
  assumes "sp_pop st = Inr (i, ll, theta, st1)"
  shows "\<exists>p heap' rest.
           heappop (sp_heap st) = Inr ((p, i), heap') \<and> i < length (sp_q st) \<and>
           sp_q st ! i = (ll, theta) # rest \<and>
           st1 = st\<lparr> sp_iter_count := sp_iter_count st + 1, sp_heap := heap',
                      sp_q := (sp_q st)[i := rest] \<rparr>"
proof (cases "heappop (sp_heap st)")
  case (Inl e)
  with assms show ?thesis by (simp add: sp_pop_def)
next
  case (Inr x)
  obtain p j heap' where x: "x = ((p, j), heap')" by (cases x) auto
  show ?thesis
  proof (cases "j < length (sp_q st)")
    case False
    with assms Inr x show ?thesis by (simp add: sp_pop_def list_get_def)
  next
    case True
    show ?thesis
    proof (cases "sp_q st ! j")
      case Nil
      with assms Inr x True show ?thesis by (simp add: sp_pop_def list_get_def)
    next
      case (Cons a rest)
      obtain ll' theta' where a: "a = (ll', theta')" by (cases a)
      with assms Inr x True Cons show ?thesis by (auto simp: sp_pop_def list_get_def)
    qed
  qed
qed

lemma sp_pop_keeps:
  assumes "sp_pop st = Inr (i, ll, theta, st1)"
  shows "sp_k st1 = sp_k st" and "sp_r st1 = sp_r st"
  using sp_pop_Inr[OF assms] by auto

lemma sp_generation_keeps:
  assumes "sp_generation n epsilon zeta beta i ll st = Inr st2"
  shows "sp_r st2 = sp_r st"
    and "length (sp_k st2) = length (sp_k st)"
    and "\<forall>j. j \<noteq> i \<longrightarrow> sp_k st2 ! j = sp_k st ! j"
  using assms
  by (auto simp: sp_generation_def bind_err_Inr_iff list_get_Inr_iff split: if_splits)

lemma sp_generation_counter:
  assumes "sp_generation n epsilon zeta beta i ll st = Inr st2" and "sp_inv st"
  shows "i < length (sp_k st2) \<and> 1 \<le> sp_k st2 ! i \<and>
         (sp_k st ! i = 0 \<longrightarrow> sp_k st2 ! i = 1)"
proof -
  obtain v where i: "i < length (sp_r st)" and v: "py_index (sp_r st ! i) ll = Inr v"
    and rest: "(if v = 0 then
       bind_err (list_get (sp_k st) i) (\<lambda>k_i.
       bind_err (sp_count epsilon zeta
                   (3 * beta * real n * real (k_i + 1) * real (k_i + 1))) (\<lambda>c.
       if i < length (sp_qq st)
       then Inr (st\<lparr> sp_k := (sp_k st)[i := k_i + 1], sp_qq := (sp_qq st)[i := c] \<rparr>)
       else Inl IndexError))
     else Inr st) = Inr st2"
    using assms(1) by (auto simp: sp_generation_def bind_err_Inr_iff list_get_Inr_iff)
  have ik: "i < length (sp_k st)" using i assms(2) by (simp add: sp_inv_def)
  show ?thesis
  proof (cases "v = 0")
    case True
    with rest ik show ?thesis
      by (auto simp: bind_err_Inr_iff list_get_Inr_iff split: if_splits)
  next
    case False
    have "v \<in> set (sp_r st ! i)" using v by (rule py_index_in_set)
    with False have "sp_k st ! i \<noteq> 0" using assms(2) ik by (auto simp: sp_inv_def)
    with False rest ik show ?thesis by simp
  qed
qed

lemma sp_charge_keeps:
  assumes "sp_charge theta_multiplier i ll theta st = Inr st3"
  shows "sp_k st3 = sp_k st"
    and "length (sp_r st3) = length (sp_r st)"
    and "\<forall>j. j \<noteq> i \<longrightarrow> sp_r st3 ! j = sp_r st ! j"
  using assms
  by (auto simp: sp_charge_def bind_err_Inr_iff list_get_Inr_iff Let_def
           split: prod.splits sum.splits if_splits)

lemma sp_extend_keeps:
  assumes "sp_extend i theta st = Inr st4"
  shows "sp_k st4 = sp_k st"
    and "sp_r_sum st4 = sp_r_sum st"
    and "length (sp_r st4) = length (sp_r st)"
    and "\<forall>j. j \<noteq> i \<longrightarrow> sp_r st4 ! j = sp_r st ! j"
  using assms
  by (auto simp: sp_extend_def bind_err_Inr_iff list_get_Inr_iff Let_def split: if_splits)

lemma sp_front_steps:
  assumes "sp_front n epsilon zeta beta theta_multiplier st = Inr (i, mid)"
  obtains ll theta st1 st2 st3 where
    "sp_pop st = Inr (i, ll, theta, st1)"
    "sp_generation n epsilon zeta beta i ll st1 = Inr st2"
    "sp_charge theta_multiplier i ll theta st2 = Inr st3"
    "sp_extend i theta st3 = Inr mid"
  using assms
  by (auto simp: sp_front_def bind_err_Inr_iff split: prod.splits)

lemma sp_front_counter:
  assumes "sp_front n epsilon zeta beta theta_multiplier st = Inr (i, mid)" and "sp_inv st"
  shows "i < length (sp_k mid) \<and> 1 \<le> sp_k mid ! i \<and> (sp_k st ! i = 0 \<longrightarrow> sp_k mid ! i = 1)"
    and "sp_inv mid"
proof -
  from assms(1) obtain ll theta st1 st2 st3 where
    p: "sp_pop st = Inr (i, ll, theta, st1)" and
    g: "sp_generation n epsilon zeta beta i ll st1 = Inr st2" and
    c: "sp_charge theta_multiplier i ll theta st2 = Inr st3" and
    e: "sp_extend i theta st3 = Inr mid"
    by (rule sp_front_steps)
  have inv1: "sp_inv st1" using assms(2) sp_pop_keeps[OF p] by (simp add: sp_inv_def)
  note cnt = sp_generation_counter[OF g inv1]
  have kmid: "sp_k mid = sp_k st2"
    using sp_charge_keeps(1)[OF c] sp_extend_keeps(1)[OF e] by simp
  show "i < length (sp_k mid) \<and> 1 \<le> sp_k mid ! i \<and> (sp_k st ! i = 0 \<longrightarrow> sp_k mid ! i = 1)"
    using cnt kmid sp_pop_keeps(1)[OF p] by simp
  have len: "length (sp_r mid) = length (sp_r st1)"
    using sp_generation_keeps(1)[OF g] sp_charge_keeps(2)[OF c] sp_extend_keeps(3)[OF e] by simp
  have other_r: "\<forall>j. j \<noteq> i \<longrightarrow> sp_r mid ! j = sp_r st1 ! j"
    using sp_generation_keeps(1)[OF g] sp_charge_keeps(3)[OF c] sp_extend_keeps(4)[OF e] by simp
  have other_k: "\<forall>j. j \<noteq> i \<longrightarrow> sp_k mid ! j = sp_k st1 ! j"
    using sp_generation_keeps(3)[OF g] kmid by simp
  have lenk: "length (sp_k mid) = length (sp_k st1)"
    using sp_generation_keeps(2)[OF g] kmid by simp
  show "sp_inv mid"
    unfolding sp_inv_def
  proof (intro conjI allI impI)
    show "length (sp_k mid) = length (sp_r mid)"
      using inv1 len lenk by (simp add: sp_inv_def)
  next
    fix j assume j: "j < length (sp_k mid)" and z: "sp_k mid ! j = 0"
    have "j \<noteq> i" using z cnt kmid by auto
    then show "\<forall>x\<in>set (sp_r mid ! j). x = 0"
      using inv1 j z lenk other_r other_k by (simp add: sp_inv_def)
  qed
qed

lemma sp_recompute_keeps:
  "sp_recompute epsilon st = Inr st' \<Longrightarrow> sp_k st' = sp_k st \<and> sp_r st' = sp_r st"
  by (auto simp: sp_recompute_def bind_err_Inr_iff split: if_splits)

lemma sp_back_keeps:
  "sp_back epsilon i st = Inr st' \<Longrightarrow> sp_k st' = sp_k st \<and> sp_r st' = sp_r st"
  by (auto simp: sp_back_def bind_err_Inr_iff Let_def split: if_splits
           dest!: sp_recompute_keeps)

lemma sp_body_inv:
  assumes "sp_body n epsilon zeta beta theta_multiplier st = Inr st'" and "sp_inv st"
  shows "sp_inv st'"
proof -
  obtain i mid where f: "sp_front n epsilon zeta beta theta_multiplier st = Inr (i, mid)"
    and b: "sp_back epsilon i mid = Inr st'"
    using assms(1) by (auto simp: sp_body_def bind_err_Inr_iff)
  have "sp_inv mid" using f assms(2) by (rule sp_front_counter(2))
  then show ?thesis using sp_back_keeps[OF b] by (simp add: sp_inv_def)
qed

lemma sp_init_inv: "sp_init env n epsilon zeta k0 beta = Inr st \<Longrightarrow> sp_inv st"
  by (auto simp: sp_init_def bind_err_Inr_iff sp_inv_def)

lemma sp_reaches_inv:
  "sp_reaches env n epsilon delta zeta k0 k_bar theta_multiplier st \<Longrightarrow> sp_inv st"
proof (induction rule: sp_reaches.induct)
  case (start k_bar k0 beta env n epsilon zeta st delta theta_multiplier)
  then show ?case by (simp add: sp_init_inv)
next
  case (step env n epsilon delta zeta k0 k_bar theta_multiplier st beta st')
  then show ?case using sp_body_inv by blast
qed

text \<open>
  Claim C10. In \<open>structured_procrastination\<close>, at every re-insertion into the heap the
  generation counter \<open>k[i]\<close> of the configuration \<open>i\<close> that was popped is at least 1: in every
  iteration that the main loop reaches, the local variables just before the re-insertion have
  \<open>1 \<le> k[i]\<close>; a configuration whose counter was still 0 had no charged slot, so the slot it
  popped had \<open>r[i][ll] == 0\<close> and the counter became exactly 1. Hence the priority key
  \<open>r_sum[i] / k[i]\<close> is computed and the division never raises.
\<close>

theorem sp_generation_counter_positive:
  assumes "sp_reaches env n epsilon delta zeta k0 k_bar theta_multiplier st"
    and "sp_beta k_bar k0 = Inr beta"
    and "sp_front n epsilon zeta beta theta_multiplier st = Inr (i, mid)"
  shows "i < length (sp_k mid) \<and> 1 \<le> sp_k mid ! i \<and>
         (sp_k st ! i = 0 \<longrightarrow> sp_k mid ! i = 1) \<and>
         sp_priority (sp_r_sum mid ! i) (sp_k mid ! i)
           = Inr (sp_r_sum mid ! i / real (sp_k mid ! i))"
proof -
  have "sp_inv st" using assms(1) by (rule sp_reaches_inv)
  with assms(3) have "i < length (sp_k mid) \<and> 1 \<le> sp_k mid ! i \<and>
      (sp_k st ! i = 0 \<longrightarrow> sp_k mid ! i = 1)"
    by (rule sp_front_counter(1))
  then show ?thesis by (simp add: sp_priority_def)
qed

text \<open>The first iteration on the three-configuration environment.\<close>

lemma ceiling_48_ln: "\<lceil>48 * ln (51 / 50 :: real)\<rceil> = 1"
proof -
  have "0 < ln (51 / 50 :: real)" by simp
  moreover have "ln (1 + 1 / 50 :: real) \<le> 1 / 50"
    by (rule ln_add_one_self_le_self) simp
  then have "ln (51 / 50 :: real) \<le> 1 / 50" by simp
  ultimately show ?thesis by (intro ceiling_unique) simp_all
qed

lemma sp_beta_scenario: "sp_beta (2 powr (1 / 16)) 1 = Inr (1 / 16)"
  by (simp add: sp_beta_def)

lemma sp_count_scenario: "sp_count (1 / 2) (75 / 136) (9 / 16) = Inr 1"
  using ceiling_48_ln by (simp add: sp_count_def C_def)

lemma sp_init_scenario:
  "sp_init scenario_env 3 (1 / 2) (75 / 136) 1 (1 / 16) = Inr sp_scenario_start"
  using sp_count_scenario
  by (simp add: sp_init_def sp_scenario_start_def numeral_3_eq_3 upt_rec)

lemma sp_front_scenario:
  "sp_front 3 (1 / 2) (75 / 136) (1 / 16) 2 sp_scenario_start = Inr (0, sp_scenario_mid)"
proof -
  have c: "sp_count (1 / 2) (75 / 136) (3 * (1 / 16) * real (3::nat) * real (0 + 1 :: nat) * real (0 + 1 :: nat)) = Inr 1"
    using sp_count_scenario by simp
  have g: "sp_grow 1 1 0 [1] [(0, 2)] = (0, [1], [(0, 2)])"
    by (simp add: sp_grow.simps)
  show ?thesis
    unfolding sp_front_def sp_pop_def sp_generation_def sp_charge_def sp_extend_def
    using c
    by (simp add: sp_scenario_start_def sp_scenario_mid_def heappop_def heap_least_def
          tuple_less_def list_get_def py_pos_def ledger_eval)
qed

theorem sp_generation_counter_positive_witness:
  "sp_reaches scenario_env 3 (1 / 2) (1 / 5) (75 / 136) 1 (2 powr (1 / 16)) 2 sp_scenario_start \<and>
   sp_front 3 (1 / 2) (75 / 136) (1 / 16) 2 sp_scenario_start = Inr (0, sp_scenario_mid) \<and>
   sp_k sp_scenario_start ! 0 = 0 \<and> sp_k sp_scenario_mid ! 0 = 1 \<and>
   sp_priority (sp_r_sum sp_scenario_mid ! 0) (sp_k sp_scenario_mid ! 0) = Inr 1"
proof -
  have h1: "sp_reaches scenario_env 3 (1 / 2) (1 / 5) (75 / 136) 1 (2 powr (1 / 16)) 2
              sp_scenario_start"
    using sp_beta_scenario sp_init_scenario by (rule sp_reaches.start)
  have z: "sp_k sp_scenario_start ! 0 = 0" "sp_r_sum sp_scenario_mid ! 0 = 1"
    by (simp_all add: sp_scenario_start_def sp_scenario_mid_def)
  from sp_generation_counter_positive[OF h1 sp_beta_scenario sp_front_scenario] z
  have "sp_k sp_scenario_mid ! 0 = 1 \<and>
        sp_priority (sp_r_sum sp_scenario_mid ! 0) (sp_k sp_scenario_mid ! 0) = Inr 1"
    by auto
  with h1 sp_front_scenario z show ?thesis by (simp add: sp_priority_def)
qed

end
